theory Spec2Isabelle
  imports Main "HOL-Library.Multiset"
begin

section \<open>The leaderboard route: data model\<close>

text \<open>
  The route handler \<open>GET\<close> reads three query parameters, calls the scoring provider once
  (twice in stats mode), and answers with a JSON body. The numbers of a provider answer
  (points, totals) are integers that a double holds exactly and are modelled as \<open>int\<close>;
  array indices and ranks are \<open>nat\<close>. What \<open>parseInt\<close> returns is a \<open>js_number\<close>: \<open>NaN\<close>,
  an integer-valued double, or an infinity. The values of the query parameters, which
  \<open>parseInt\<close> reads, are lists of UTF-16 code units; the other strings are only copied or
  compared and are byte strings.
\<close>

text \<open>\<open>type Profile\<close> and the elements of its \<open>scores\<close> array. An optional field is an
  \<open>option\<close>; \<open>points\<close> is \<open>None\<close> when the field is missing or null.\<close>

record score_entry =
  slug :: string
  points :: "int option"

record Profile =
  profile_id :: string
  display_name :: "string option"
  profile_name :: "string option"
  image_url :: "string option"
  scores :: "score_entry list option"

text \<open>The object built by the \<open>map\<close> callback of step 1, and the same object with the
  \<open>rank\<close> field that step 3 adds by spreading it.\<close>

record entry =
  name :: string
  pfp :: "string option"
  score :: int
  rewards :: string
  entry_id :: string
  talent_protocol_id :: string

record ranked = entry +
  rank :: nat

section \<open>JavaScript helpers\<close>

text \<open>\<open>a || b\<close> on a possibly missing string: the empty string is falsy.\<close>

definition str_or :: "'a list option \<Rightarrow> 'a list \<Rightarrow> 'a list" where
  "str_or a b = (case a of None \<Rightarrow> b | Some s \<Rightarrow> if s = [] then b else s)"

text \<open>\<open>a || b\<close> on a possibly missing number: zero is falsy.\<close>

definition num_or :: "int option \<Rightarrow> int \<Rightarrow> int" where
  "num_or a b = (case a of None \<Rightarrow> b | Some v \<Rightarrow> if v = 0 then b else v)"

text \<open>A JavaScript string as its UTF-16 code units, and the code units of an ASCII
  literal.\<close>

type_synonym js_string = "nat list"

definition utf16 :: "string \<Rightarrow> js_string" where
  "utf16 s = map of_char s"

text \<open>Rounding to double precision. \<open>bitLength n\<close> is the number of binary digits of \<open>n\<close>;
  \<open>round_half_even m s\<close> is \<open>m / 2 ^ s\<close> rounded to the nearest integer, a tie going to the
  even one; \<open>round53 m\<close> is the nearest number with a significand of 53 bits, which is how
  a double rounds a value in its normal range.\<close>

fun bitLength :: "nat \<Rightarrow> nat" where
  "bitLength n = (if n = 0 then 0 else Suc (bitLength (n div 2)))"

declare bitLength.simps [simp del]

definition round_half_even :: "nat \<Rightarrow> nat \<Rightarrow> nat" where
  "round_half_even m s =
     (let q = m div 2 ^ s; r = m mod 2 ^ s
      in if 2 ^ s < 2 * r \<or> (2 * r = 2 ^ s \<and> odd q) then q + 1 else q)"

definition round53 :: "nat \<Rightarrow> nat" where
  "round53 m = (let s = bitLength m - 53 in round_half_even m s * 2 ^ s)"

text \<open>The Number value of an integer given by its sign and magnitude: the nearest double,
  an infinity when that is \<open>2 ^ 1024\<close> or more.\<close>

datatype js_number = NaN | Num int | PosInf | NegInf

definition to_number :: "bool \<Rightarrow> nat \<Rightarrow> js_number" where
  "to_number negative m =
     (let v = round53 m
      in if 2 ^ 1024 \<le> v then (if negative then NegInf else PosInf)
         else Num (if negative then - int v else int v))"

text \<open>\<open>parseInt(s, 10)\<close>: leading white space and line terminators are skipped (the
  ECMAScript \<open>WhiteSpace\<close> and \<open>LineTerminator\<close> code points, all in the basic plane), one
  sign is accepted, the longest run of decimal digits is read; with no digit the result is
  \<open>NaN\<close>, otherwise the Number value of the signed numeral. For a numeral of more than 20
  significant digits an implementation may replace the digits after the 20th by 0 before
  rounding; no statement below depends on such a numeral. The two zeros are one value here:
  both are written \<open>0\<close> into the URL.\<close>

definition isWhiteSpace :: "nat \<Rightarrow> bool" where
  "isWhiteSpace c =
     (c \<in> set [0x09, 0x0A, 0x0B, 0x0C, 0x0D, 0x20, 0xA0, 0x1680, 0x2028, 0x2029, 0x202F, 0x205F,
               0x3000, 0xFEFF]
      \<or> (0x2000 \<le> c \<and> c \<le> 0x200A))"

definition isDigit :: "nat \<Rightarrow> bool" where
  "isDigit c = (48 \<le> c \<and> c \<le> 57)"

definition digitValue :: "nat \<Rightarrow> nat" where
  "digitValue c = c - 48"

definition digitsValue :: "js_string \<Rightarrow> nat" where
  "digitsValue Z = foldl (\<lambda>a c. 10 * a + digitValue c) 0 Z"

definition parseInt :: "js_string \<Rightarrow> js_number" where
  "parseInt s =
     (let S = dropWhile isWhiteSpace s;
          negative = (case S of c # r \<Rightarrow> c = of_char CHR ''-'' | [] \<Rightarrow> False);
          S' = (case S of
                  c # r \<Rightarrow> if c = of_char CHR ''-'' \<or> c = of_char CHR ''+'' then r else S
                | [] \<Rightarrow> S);
          Z = takeWhile isDigit S'
      in if Z = [] then NaN else to_number negative (digitsValue Z))"

text \<open>\<open>Array.prototype.sort(cmp)\<close>: a stable sort. The element is placed before the first
  later element it does not compare greater than, so equal elements keep their order.\<close>

fun insert_by :: "('a \<Rightarrow> 'a \<Rightarrow> int) \<Rightarrow> 'a \<Rightarrow> 'a list \<Rightarrow> 'a list" where
  "insert_by cmp x [] = [x]"
| "insert_by cmp x (y # ys) =
     (if cmp x y \<le> 0 then x # y # ys else y # insert_by cmp x ys)"

definition array_sort :: "('a \<Rightarrow> 'a \<Rightarrow> int) \<Rightarrow> 'a list \<Rightarrow> 'a list" where
  "array_sort cmp xs = foldr (insert_by cmp) xs []"

section \<open>Step 1: each profile's highest Creator Score\<close>

definition creatorScores :: "Profile \<Rightarrow> int list" where
  "creatorScores p =
     (case scores p of
        None \<Rightarrow> []
      | Some ss \<Rightarrow>
          map (\<lambda>s. case points s of None \<Rightarrow> 0 | Some v \<Rightarrow> v)
              (filter (\<lambda>s. slug s = ''creator_score'') ss))"

text \<open>\<open>creatorScores.length > 0 ? Math.max(...creatorScores) : 0\<close>\<close>

definition profile_score :: "Profile \<Rightarrow> int" where
  "profile_score p =
     (case creatorScores p of [] \<Rightarrow> 0 | x # xs \<Rightarrow> fold max xs x)"

definition mapped_entry :: "Profile \<Rightarrow> entry" where
  "mapped_entry p =
     \<lparr> name = str_or (display_name p) (str_or (profile_name p) ''Unknown''),
       pfp = (case image_url p of None \<Rightarrow> None | Some u \<Rightarrow> if u = [] then None else Some u),
       score = profile_score p,
       rewards = ''-'',
       entry_id = profile_id p,
       talent_protocol_id = profile_id p \<rparr>"

section \<open>Step 2: sort by score descending\<close>

definition by_score_desc :: "entry \<Rightarrow> entry \<Rightarrow> int" where
  "by_score_desc a b = score b - score a"

section \<open>Step 3: assign ranks\<close>

text \<open>The \<open>map\<close> callback of step 3 with its three captured variables \<open>lastScore\<close>,
  \<open>lastRank\<close>, \<open>ties\<close> and the index \<open>idx\<close> passed explicitly.\<close>

definition with_rank :: "entry \<Rightarrow> nat \<Rightarrow> ranked" where
  "with_rank e r =
     \<lparr> name = name e, pfp = pfp e, score = score e, rewards = rewards e,
       entry_id = entry_id e, talent_protocol_id = talent_protocol_id e, rank = r \<rparr>"

fun rank_loop :: "int option \<Rightarrow> nat \<Rightarrow> nat \<Rightarrow> nat \<Rightarrow> entry list \<Rightarrow> ranked list" where
  "rank_loop lastScore lastRank ties idx [] = []"
| "rank_loop lastScore lastRank ties idx (e # es) =
     (if Some (score e) = lastScore
      then with_rank e lastRank # rank_loop lastScore lastRank (ties + 1) (idx + 1) es
      else
        let r = (if ties > 0 then lastRank + ties else idx + 1)
        in with_rank e r # rank_loop (Some (score e)) r 1 (idx + 1) es)"

definition assign_ranks :: "entry list \<Rightarrow> ranked list" where
  "assign_ranks mapped = rank_loop None 0 0 0 mapped"

section \<open>The provider call\<close>

text \<open>What is put into the URL of a provider call: the \<open>query\<close> object, the \<open>sort\<close> object
  (its keys in the order written; absent from the eligible-count call), \<open>page\<close> and
  \<open>per_page\<close> as they are interpolated, and the key sent as \<open>X-API-KEY\<close>.\<close>

record score_query =
  score_min :: int
  score_scorer :: string

record sort_key =
  sort_order :: string
  sort_scorer :: "string option"

record provider_request =
  query :: score_query
  sort_spec :: "(string \<times> sort_key) list option"
  page :: js_number
  per_page :: js_number
  x_api_key :: string

text \<open>What a call gives back: \<open>fetch\<close> rejects, or it resolves to a response with a status,
  a body text and, when the body is JSON, the parsed object (\<open>res.json()\<close> rejects
  otherwise). \<open>pagination_total\<close> is \<open>json.pagination?.total\<close>.\<close>

record provider_json =
  profiles :: "Profile list option"
  pagination_total :: "int option"

record http_response =
  status :: nat
  body_text :: string
  body_json :: "provider_json option"

datatype fetch_result = Rejected | Resolved http_response

definition ok :: "http_response \<Rightarrow> bool" where
  "ok res = (200 \<le> status res \<and> status res \<le> 299)"

section \<open>The handler\<close>

datatype response_body =
    Error_body (error: string)
  | Stats_body (minScore: int) (totalCreators: int) (eligibleCreators: int)
  | Listing_body (entries: "ranked list") (minScore: int) (totalCreators: int)

text \<open>The handler answers with a status and a body, or an exception escapes it: a rejected
  \<open>fetch\<close>, a rejected \<open>json()\<close>, or one of the two errors of \<open>NextResponse.json\<close>.\<close>

datatype thrown = Fetch_rejected | Json_rejected | Status_out_of_range | Null_body_status

datatype handler_result = Responded nat response_body | Threw thrown

text \<open>\<open>NextResponse.json(body, { status })\<close> builds the answer with \<open>Response.json\<close>, which
  throws a \<open>RangeError\<close> for a status outside 200 to 599 and a \<open>TypeError\<close> for a status
  that allows no body (101, 103, 204, 205, 304).\<close>

definition NextResponse_json :: "response_body \<Rightarrow> nat \<Rightarrow> handler_result" where
  "NextResponse_json body st =
     (if st < 200 \<or> 599 < st then Threw Status_out_of_range
      else if st \<in> set [101, 103, 204, 205, 304] then Threw Null_body_status
      else Responded st body)"

text \<open>Lines 104 to 110: the three request parameters. \<open>searchParams.get\<close> is a partial
  map from names to values.\<close>

definition param_page :: "(string \<rightharpoonup> js_string) \<Rightarrow> js_number" where
  "param_page searchParams = parseInt (str_or (searchParams ''page'') (utf16 ''1''))"

definition param_perPage :: "(string \<rightharpoonup> js_string) \<Rightarrow> js_number" where
  "param_perPage searchParams =
     parseInt (str_or (searchParams ''per_page'')
                 (str_or (searchParams ''perPage'') (utf16 ''25'')))"

definition param_statsOnly :: "(string \<rightharpoonup> js_string) \<Rightarrow> bool" where
  "param_statsOnly searchParams = (searchParams ''statsOnly'' = Some (utf16 ''true''))"

text \<open>Lines 112 to 149: the listing call.\<close>

definition listing_request :: "string \<Rightarrow> js_number \<Rightarrow> js_number \<Rightarrow> provider_request" where
  "listing_request apiKey pg perPage =
     \<lparr> query = \<lparr> score_min = 1, score_scorer = ''Creator Score'' \<rparr>,
       sort_spec = Some [(''score'', \<lparr> sort_order = ''desc'', sort_scorer = Some ''Creator Score'' \<rparr>),
                         (''id'', \<lparr> sort_order = ''desc'', sort_scorer = None \<rparr>)],
       page = pg,
       per_page = perPage,
       x_api_key = apiKey \<rparr>"

text \<open>Lines 166 to 192: the eligible-count call.\<close>

definition eligible_request :: "string \<Rightarrow> provider_request" where
  "eligible_request apiKey =
     \<lparr> query = \<lparr> score_min = 80, score_scorer = ''Creator Score'' \<rparr>,
       sort_spec = None,
       page = Num 1,
       per_page = Num 1,
       x_api_key = apiKey \<rparr>"

text \<open>\<open>Math.floor(totalCreators * 0.3)\<close>, in double precision. The double \<open>0.3\<close> is
  \<open>5404319552844595 / 2 ^ 54\<close>; the product of the two doubles is their exact product
  rounded to 53 bits; the floor of a quotient by \<open>2 ^ 54\<close> is \<open>div\<close>.\<close>

definition fallback_estimate :: "int \<Rightarrow> int" where
  "fallback_estimate n =
     (sgn n * int (round53 (nat \<bar>n\<bar> * 5404319552844595))) div 2 ^ 54"

text \<open>Lines 157 to 214: stats mode, after the first call has succeeded. The result is the
  calls made here and the answer. A rejected \<open>fetch\<close> and a rejected \<open>json()\<close> are both
  caught by the \<open>try\<close>; a response that is not ok leaves \<open>eligibleCreators\<close> at its initial 0.\<close>

definition stats_mode ::
  "string \<Rightarrow> (provider_request \<Rightarrow> fetch_result) \<Rightarrow> provider_json
     \<Rightarrow> provider_request list \<times> handler_result" where
  "stats_mode apiKey fetch json =
     (let tc = num_or (pagination_total json) 0;
          minSc = 100;
          fallback = Responded 200 (Stats_body minSc tc (fallback_estimate tc))
      in ([eligible_request apiKey],
          (case fetch (eligible_request apiKey) of
             Rejected \<Rightarrow> fallback
           | Resolved eligibleRes \<Rightarrow>
               if ok eligibleRes
               then (case body_json eligibleRes of
                       None \<Rightarrow> fallback
                     | Some eligibleJson \<Rightarrow>
                         Responded 200
                           (Stats_body minSc tc (num_or (pagination_total eligibleJson) 0)))
               else Responded 200 (Stats_body minSc tc 0))))"

text \<open>Lines 216 to 266: listing mode.\<close>

definition listing_mode :: "provider_json \<Rightarrow> handler_result" where
  "listing_mode json =
     (let mapped = map mapped_entry (case profiles json of None \<Rightarrow> [] | Some ps \<Rightarrow> ps);
          sorted_entries = array_sort by_score_desc mapped;
          ranked_entries = assign_ranks sorted_entries;
          minSc = 100;
          tc = num_or (pagination_total json) (int (length ranked_entries))
      in Responded 200 (Listing_body ranked_entries minSc tc))"

text \<open>The handler. Its other answers are built with the status 500 or with no status, which
  is 200, and \<open>NextResponse.json\<close> accepts both. \<open>apiKey\<close> is the environment variable, \<open>fetch\<close> the provider as seen
  through \<open>fetch\<close>, \<open>searchParams\<close> the request's query. The result pairs the provider calls
  made, in order, with the answer.\<close>

definition GET ::
  "string option \<Rightarrow> (provider_request \<Rightarrow> fetch_result) \<Rightarrow> (string \<rightharpoonup> js_string)
     \<Rightarrow> provider_request list \<times> handler_result" where
  "GET apiKey fetch searchParams =
     (if str_or apiKey [] = []
      then ([], Responded 500 (Error_body ''Missing Talent API key''))
      else
        let key = str_or apiKey [];
            pg = param_page searchParams;
            perPage = param_perPage searchParams;
            statsOnly = param_statsOnly searchParams;
            req = listing_request key pg perPage
        in (case fetch req of
              Rejected \<Rightarrow> ([req], Threw Fetch_rejected)
            | Resolved res \<Rightarrow>
                if \<not> ok res
                then ([req], NextResponse_json (Error_body (body_text res)) (status res))
                else (case body_json res of
                        None \<Rightarrow> ([req], Threw Json_rejected)
                      | Some json \<Rightarrow>
                          if statsOnly
                          then (let (calls, answer) = stats_mode key fetch json
                                in (req # calls, answer))
                          else ([req], listing_mode json))))"

section \<open>Auxiliary definitions\<close>

text \<open>Names for three expressions of the handler: \<open>Array.isArray(p.scores) ? p.scores : []\<close>,
  \<open>s.points ?? 0\<close> and \<open>json.profiles || []\<close>.\<close>

definition score_entries :: "Profile \<Rightarrow> score_entry list" where
  "score_entries p = (case scores p of None \<Rightarrow> [] | Some ss \<Rightarrow> ss)"

definition points_or_zero :: "score_entry \<Rightarrow> int" where
  "points_or_zero s = (case points s of None \<Rightarrow> 0 | Some v \<Rightarrow> v)"

definition profiles_of :: "provider_json \<Rightarrow> Profile list" where
  "profiles_of json = (case profiles json of None \<Rightarrow> [] | Some ps \<Rightarrow> ps)"

text \<open>The decimal numeral of a natural number, as a client writes it into the query.\<close>

fun decimal :: "nat \<Rightarrow> js_string" where
  "decimal n = (if n < 10 then [48 + n] else decimal (n div 10) @ [48 + n mod 10])"

declare decimal.simps [simp del]

text \<open>The relation between the three variables of the ranking loop and the index, kept by
  every iteration: before the first entry nothing has been seen; afterwards the current
  tied group started at rank \<open>lastRank\<close> and has \<open>ties\<close> members, the last of them at
  index \<open>idx - 1\<close>.\<close>

definition rank_inv :: "int option \<Rightarrow> nat \<Rightarrow> nat \<Rightarrow> nat \<Rightarrow> bool" where
  "rank_inv lastScore lastRank ties idx =
     ((ties = 0 \<and> lastScore = None) \<or> (ties > 0 \<and> lastRank + ties = idx + 1))"

subsection \<open>Example data\<close>

text \<open>Four entries with the scores 90, 90, 80, 70.\<close>

definition mk_entry :: "string \<Rightarrow> int \<Rightarrow> entry" where
  "mk_entry i s =
     \<lparr> name = ''Unknown'', pfp = None, score = s, rewards = ''-'', entry_id = i,
       talent_protocol_id = i \<rparr>"

definition ex_entries :: "entry list" where
  "ex_entries = [mk_entry ''a'' 90, mk_entry ''b'' 90, mk_entry ''c'' 80, mk_entry ''d'' 70]"

text \<open>Three profiles: one with two \<open>creator_score\<close> entries and one other entry, one
  without a \<open>scores\<close> array, one whose only \<open>creator_score\<close> entry has negative points.\<close>

definition ex_profile :: Profile where
  "ex_profile = \<lparr> profile_id = ''p1'', display_name = Some ''Ada'', profile_name = None,
                   image_url = None,
                   scores = Some [\<lparr> slug = ''creator_score'', points = Some 50 \<rparr>,
                                  \<lparr> slug = ''creator_score'', points = Some 80 \<rparr>,
                                  \<lparr> slug = ''other'', points = Some 999 \<rparr>] \<rparr>"

definition plain_profile :: Profile where
  "plain_profile = \<lparr> profile_id = ''p0'', display_name = None, profile_name = Some ''Bo'',
                     image_url = None, scores = None \<rparr>"

definition neg_profile :: Profile where
  "neg_profile = \<lparr> profile_id = ''p2'', display_name = None, profile_name = None,
                   image_url = None,
                   scores = Some [\<lparr> slug = ''creator_score'', points = Some (- 5) \<rparr>] \<rparr>"

text \<open>Provider answers: a page of two profiles out of 1000, a page with the third profile
  and no pagination total, a failure, and a 304.\<close>

definition ex_json :: provider_json where
  "ex_json = \<lparr> profiles = Some [plain_profile, ex_profile], pagination_total = Some 1000 \<rparr>"

definition neg_json :: provider_json where
  "neg_json = \<lparr> profiles = Some [neg_profile], pagination_total = None \<rparr>"

definition ok_response :: http_response where
  "ok_response = \<lparr> status = 200, body_text = [], body_json = Some ex_json \<rparr>"

definition neg_response :: http_response where
  "neg_response = \<lparr> status = 200, body_text = [], body_json = Some neg_json \<rparr>"

definition err_response :: http_response where
  "err_response = \<lparr> status = 503, body_text = ''Service Unavailable'', body_json = None \<rparr>"


text \<open>Providers: four that answer every call alike, and two that answer the listing call
  with the first page but fail the eligible-count call (the one without a sort), by status
  and by rejection.\<close>

definition fetch_ok :: "provider_request \<Rightarrow> fetch_result" where
  "fetch_ok req = Resolved ok_response"

definition fetch_neg :: "provider_request \<Rightarrow> fetch_result" where
  "fetch_neg req = Resolved neg_response"



definition fetch_eligible_err :: "provider_request \<Rightarrow> fetch_result" where
  "fetch_eligible_err req =
     (if sort_spec req = None then Resolved err_response else Resolved ok_response)"

definition fetch_eligible_rejected :: "provider_request \<Rightarrow> fetch_result" where
  "fetch_eligible_rejected req =
     (if sort_spec req = None then Rejected else Resolved ok_response)"

text \<open>Request queries.\<close>

definition page_params :: "string \<rightharpoonup> js_string" where
  "page_params = [''page'' \<mapsto> utf16 ''7'', ''perPage'' \<mapsto> utf16 ''50'']"

definition stats_params :: "string \<rightharpoonup> js_string" where
  "stats_params = [''statsOnly'' \<mapsto> utf16 ''true'']"

section \<open>The rank assignment\<close>

lemma length_rank_loop: "length (rank_loop ls lr t idx es) = length es"
  by (induction es arbitrary: ls lr t idx) (auto simp: Let_def)

lemma rank_loop_nth_with_rank:
  "i < length es \<Longrightarrow> rank_loop ls lr t idx es ! i = with_rank (es ! i) (rank (rank_loop ls lr t idx es ! i))"
proof (induction es arbitrary: ls lr t idx i)
  case Nil
  then show ?case by simp
next
  case (Cons e es)
  show ?case
  proof (cases i)
    case 0
    then show ?thesis by (simp add: Let_def with_rank_def)
  next
    case (Suc j)
    with Cons.prems have "j < length es" by simp
    from Cons.IH[OF this] Suc show ?thesis by (simp add: Let_def)
  qed
qed

lemma rank_loop_head:
  "0 < t \<Longrightarrow> rank (rank_loop (Some s) lr t idx (e # es) ! 0) = lr \<longleftrightarrow> score e = s"
  by (auto simp: Let_def with_rank_def)

lemma rank_loop_Cons_shape:
  "\<exists>r t'. 0 < t' \<and> rank_loop ls lr t idx (e # es) = with_rank e r # rank_loop (Some (score e)) r t' (Suc idx) es"
  by (auto simp: Let_def)

lemma rank_loop_adjacent:
  "Suc i < length es \<Longrightarrow>
   rank (rank_loop ls lr t idx es ! Suc i) = rank (rank_loop ls lr t idx es ! i)
     \<longleftrightarrow> score (es ! Suc i) = score (es ! i)"
proof (induction es arbitrary: ls lr t idx i)
  case Nil
  then show ?case by simp
next
  case (Cons e es)
  obtain r t' where t': "0 < t'"
    and shape: "rank_loop ls lr t idx (e # es) = with_rank e r # rank_loop (Some (score e)) r t' (Suc idx) es"
    using rank_loop_Cons_shape by blast
  show ?case
  proof (cases i)
    case 0
    with Cons.prems obtain e' es' where es: "es = e' # es'" by (cases es) auto
    have "rank (rank_loop (Some (score e)) r t' (Suc idx) (e' # es') ! 0) = r \<longleftrightarrow> score e' = score e"
      using t' by (rule rank_loop_head)
    with 0 es shape show ?thesis by (simp add: with_rank_def)
  next
    case (Suc j)
    with Cons.prems have "Suc j < length es" by simp
    from Cons.IH[OF this] Suc shape show ?thesis by simp
  qed
qed

lemma rank_loop_position:
  "rank_inv ls lr t idx \<Longrightarrow> i < length es \<Longrightarrow>
   (case i of 0 \<Rightarrow> Some (score (es ! 0)) \<noteq> ls | Suc j \<Rightarrow> score (es ! i) \<noteq> score (es ! j)) \<Longrightarrow>
   rank (rank_loop ls lr t idx es ! i) = idx + i + 1"
proof (induction es arbitrary: ls lr t idx i)
  case Nil
  then show ?case by simp
next
  case (Cons e es)
  show ?case
  proof (cases i)
    case 0
    with Cons.prems show ?thesis by (auto simp: Let_def with_rank_def rank_inv_def)
  next
    case (Suc j)
    with Cons.prems have j: "j < length es" by simp
    have start: "(case j of 0 \<Rightarrow> Some (score (es ! 0)) \<noteq> Some (score e) | Suc k \<Rightarrow> score (es ! j) \<noteq> score (es ! k))"
      using Cons.prems(3) Suc by (cases j) auto
    show ?thesis
    proof (cases "Some (score e) = ls")
      case True
      with Cons.prems(1) have inv: "rank_inv ls lr (t + 1) (idx + 1)" by (auto simp: rank_inv_def)
      from True start have start': "(case j of 0 \<Rightarrow> Some (score (es ! 0)) \<noteq> ls | Suc k \<Rightarrow> score (es ! j) \<noteq> score (es ! k))"
        by (cases j) auto
      from Cons.IH[OF inv j start'] True Suc show ?thesis by simp
    next
      case False
      define r where "r = (if t > 0 then lr + t else idx + 1)"
      from Cons.prems(1) have inv: "rank_inv (Some (score e)) r 1 (idx + 1)"
        by (auto simp: rank_inv_def r_def)
      from Cons.IH[OF inv j start] False Suc show ?thesis by (simp add: Let_def r_def)
    qed
  qed
qed

lemma rank_loop_scores: "map score (rank_loop ls lr t idx es) = map score es"
  by (induction es arbitrary: ls lr t idx) (auto simp: Let_def with_rank_def)

lemma rank_loop_ids:
  "map (\<lambda>e. (entry_id e, score e)) (rank_loop ls lr t idx es) = map (\<lambda>e. (entry_id e, score e)) es"
  by (induction es arbitrary: ls lr t idx) (auto simp: Let_def with_rank_def)

lemma assign_ranks_scores: "map score (assign_ranks es) = map score es"
  by (simp add: assign_ranks_def rank_loop_scores)

lemma rank_example:
  assumes "map score es = [90, 90, 80, 70]"
  shows "map rank (assign_ranks es) = [1, 1, 3, 4]"
proof -
  from assms obtain a b c d where es: "es = [a, b, c, d]"
    and sc: "score a = 90" "score b = 90" "score c = 80" "score d = 70"
    by (auto simp: map_eq_Cons_conv)
  show ?thesis
    unfolding es assign_ranks_def by (simp add: sc with_rank_def)
qed

text \<open>
  Claim C1. The rank assignment returns a sequence parallel to its input and of the same
  length: the entry at each position is the input entry with a rank added. The first rank
  is 1; two consecutive entries have equal ranks exactly when their scores are equal; an
  entry whose score differs from its predecessor's gets its 1-based position as rank, which
  is the rank at which the preceding tied group started plus the size of that group. Scores
  90, 90, 80, 70 give ranks 1, 1, 3, 4, the empty input gives the empty output, and a single
  entry gets rank 1. All of this holds for every input; that the input is sorted is not
  needed.
\<close>

theorem rank_assignment_competition:
  "length (assign_ranks es) = length es
   \<and> (\<forall>i < length es. assign_ranks es ! i = with_rank (es ! i) (rank (assign_ranks es ! i)))
   \<and> (es \<noteq> [] \<longrightarrow> rank (assign_ranks es ! 0) = 1)
   \<and> (\<forall>i. Suc i < length es \<longrightarrow>
          (rank (assign_ranks es ! Suc i) = rank (assign_ranks es ! i)
             \<longleftrightarrow> score (es ! Suc i) = score (es ! i)))
   \<and> (\<forall>i. Suc i < length es \<and> score (es ! Suc i) \<noteq> score (es ! i) \<longrightarrow>
          rank (assign_ranks es ! Suc i) = Suc i + 1)
   \<and> (\<forall>j i. j \<le> i \<and> Suc i < length es
            \<and> (j = 0 \<or> score (es ! (j - 1)) \<noteq> score (es ! j))
            \<and> (\<forall>k. j \<le> k \<and> k \<le> i \<longrightarrow> score (es ! k) = score (es ! j))
            \<and> score (es ! Suc i) \<noteq> score (es ! i) \<longrightarrow>
          rank (assign_ranks es ! Suc i) = rank (assign_ranks es ! j) + (Suc i - j))
   \<and> (map score es = [90, 90, 80, 70] \<longrightarrow> map rank (assign_ranks es) = [1, 1, 3, 4])
   \<and> assign_ranks [] = []
   \<and> (\<forall>e. map rank (assign_ranks [e]) = [1])"
proof -
  have inv0: "rank_inv None 0 0 0" by (simp add: rank_inv_def)
  have start: "rank (assign_ranks es ! j) = j + 1"
    if "j < length es" "j = 0 \<or> score (es ! (j - 1)) \<noteq> score (es ! j)" for j
  proof -
    from that(2) have "case j of 0 \<Rightarrow> Some (score (es ! 0)) \<noteq> None | Suc k \<Rightarrow> score (es ! j) \<noteq> score (es ! k)"
      by (cases j) auto
    from rank_loop_position[OF inv0 that(1) this] show ?thesis by (simp add: assign_ranks_def)
  qed
  have c1: "length (assign_ranks es) = length es"
    by (simp add: assign_ranks_def length_rank_loop)
  have c2: "\<forall>i < length es. assign_ranks es ! i = with_rank (es ! i) (rank (assign_ranks es ! i))"
    unfolding assign_ranks_def using rank_loop_nth_with_rank by blast
  have c3: "es \<noteq> [] \<longrightarrow> rank (assign_ranks es ! 0) = 1"
    using start[of 0] by simp
  have c4: "\<forall>i. Suc i < length es \<longrightarrow>
          (rank (assign_ranks es ! Suc i) = rank (assign_ranks es ! i)
             \<longleftrightarrow> score (es ! Suc i) = score (es ! i))"
    unfolding assign_ranks_def using rank_loop_adjacent by blast
  have c5: "\<forall>i. Suc i < length es \<and> score (es ! Suc i) \<noteq> score (es ! i) \<longrightarrow>
          rank (assign_ranks es ! Suc i) = Suc i + 1"
  proof (intro allI impI)
    fix i
    assume h: "Suc i < length es \<and> score (es ! Suc i) \<noteq> score (es ! i)"
    then show "rank (assign_ranks es ! Suc i) = Suc i + 1" using start[of "Suc i"] by simp
  qed
  have c6: "\<forall>j i. j \<le> i \<and> Suc i < length es
            \<and> (j = 0 \<or> score (es ! (j - 1)) \<noteq> score (es ! j))
            \<and> (\<forall>k. j \<le> k \<and> k \<le> i \<longrightarrow> score (es ! k) = score (es ! j))
            \<and> score (es ! Suc i) \<noteq> score (es ! i) \<longrightarrow>
          rank (assign_ranks es ! Suc i) = rank (assign_ranks es ! j) + (Suc i - j)"
  proof (intro allI impI)
    fix j i
    assume h: "j \<le> i \<and> Suc i < length es
            \<and> (j = 0 \<or> score (es ! (j - 1)) \<noteq> score (es ! j))
            \<and> (\<forall>k. j \<le> k \<and> k \<le> i \<longrightarrow> score (es ! k) = score (es ! j))
            \<and> score (es ! Suc i) \<noteq> score (es ! i)"
    then have ji: "j \<le> i" and len: "Suc i < length es"
      and st: "j = 0 \<or> score (es ! (j - 1)) \<noteq> score (es ! j)"
      and ne: "score (es ! Suc i) \<noteq> score (es ! i)"
      by blast+
    from ji len have "j < length es" by simp
    from start[OF this st] have a: "rank (assign_ranks es ! j) = j + 1" .
    from ne have "Suc i = 0 \<or> score (es ! (Suc i - 1)) \<noteq> score (es ! Suc i)" by simp
    from start[OF len this] have b: "rank (assign_ranks es ! Suc i) = Suc i + 1" .
    from a b ji show "rank (assign_ranks es ! Suc i) = rank (assign_ranks es ! j) + (Suc i - j)"
      by simp
  qed
  have c7: "map score es = [90, 90, 80, 70] \<longrightarrow> map rank (assign_ranks es) = [1, 1, 3, 4]"
    by (rule impI) (rule rank_example)
  have c8: "assign_ranks [] = []" by (simp add: assign_ranks_def)
  have c9: "\<forall>e. map rank (assign_ranks [e]) = [1]" by (simp add: assign_ranks_def with_rank_def)
  show ?thesis
    by (intro conjI) (rule c1 c2 c3 c4 c5 c6 c7 c8 c9)+
qed

theorem rank_assignment_competition_witness:
  "ex_entries \<noteq> [] \<and> rank (assign_ranks ex_entries ! 0) = 1
   \<and> Suc 0 < length ex_entries
   \<and> score (ex_entries ! Suc 0) = score (ex_entries ! 0)
   \<and> rank (assign_ranks ex_entries ! Suc 0) = rank (assign_ranks ex_entries ! 0)
   \<and> Suc 1 < length ex_entries \<and> score (ex_entries ! Suc 1) \<noteq> score (ex_entries ! 1)
   \<and> rank (assign_ranks ex_entries ! Suc 1) = Suc 1 + 1
   \<and> rank (assign_ranks ex_entries ! Suc 1) = rank (assign_ranks ex_entries ! 0) + (Suc 1 - 0)
   \<and> map score ex_entries = [90, 90, 80, 70]
   \<and> map rank (assign_ranks ex_entries) = [1, 1, 3, 4]"
proof -
  note T = rank_assignment_competition [of ex_entries]
  have sc: "score (ex_entries ! 0) = 90" "score (ex_entries ! 1) = 90"
    "score (ex_entries ! Suc 0) = 90" "score (ex_entries ! Suc 1) = 80"
    and len: "length ex_entries = 4"
    by (simp_all add: ex_entries_def mk_entry_def)
  have h0: "ex_entries \<noteq> []" by (simp add: ex_entries_def)
  have h1: "map score ex_entries = [90, 90, 80, 70]"
    by (simp add: ex_entries_def mk_entry_def)
  have h2: "Suc 1 < length ex_entries \<and> score (ex_entries ! Suc 1) \<noteq> score (ex_entries ! 1)"
    by (simp add: ex_entries_def mk_entry_def)
  have h3: "Suc 0 < length ex_entries" by (simp add: len)
  have h4: "score (ex_entries ! Suc 0) = score (ex_entries ! 0)" by (simp add: sc)
  have grp: "\<forall>k. (0::nat) \<le> k \<and> k \<le> 1 \<longrightarrow> score (ex_entries ! k) = score (ex_entries ! 0)"
  proof (intro allI impI)
    fix k :: nat assume "0 \<le> k \<and> k \<le> 1"
    then have "k = 0 \<or> k = 1" by arith
    then show "score (ex_entries ! k) = score (ex_entries ! 0)" by (auto simp: sc)
  qed
  have h5: "(0::nat) \<le> 1 \<and> Suc 1 < length ex_entries
            \<and> ((0::nat) = 0 \<or> score (ex_entries ! (0 - 1)) \<noteq> score (ex_entries ! 0))
            \<and> (\<forall>k. 0 \<le> k \<and> k \<le> 1 \<longrightarrow> score (ex_entries ! k) = score (ex_entries ! 0))
            \<and> score (ex_entries ! Suc 1) \<noteq> score (ex_entries ! 1)"
    using h2 grp by blast
  from T have "ex_entries \<noteq> [] \<longrightarrow> rank (assign_ranks ex_entries ! 0) = 1"
    by (elim conjE)
  with h0 have r0: "rank (assign_ranks ex_entries ! 0) = 1" by (rule rev_mp)
  from T have "\<forall>i. Suc i < length ex_entries \<longrightarrow>
          (rank (assign_ranks ex_entries ! Suc i) = rank (assign_ranks ex_entries ! i)
             \<longleftrightarrow> score (ex_entries ! Suc i) = score (ex_entries ! i))"
    by (elim conjE)
  then have "Suc 0 < length ex_entries \<longrightarrow>
          (rank (assign_ranks ex_entries ! Suc 0) = rank (assign_ranks ex_entries ! 0)
             \<longleftrightarrow> score (ex_entries ! Suc 0) = score (ex_entries ! 0))"
    by (rule spec)
  with h3 h4 have r3: "rank (assign_ranks ex_entries ! Suc 0) = rank (assign_ranks ex_entries ! 0)"
    by blast
  from T have "map score ex_entries = [90, 90, 80, 70]
      \<longrightarrow> map rank (assign_ranks ex_entries) = [1, 1, 3, 4]"
    by (elim conjE)
  with h1 have r1: "map rank (assign_ranks ex_entries) = [1, 1, 3, 4]" by (rule rev_mp)
  from T have "\<forall>i. Suc i < length ex_entries \<and> score (ex_entries ! Suc i) \<noteq> score (ex_entries ! i) \<longrightarrow>
          rank (assign_ranks ex_entries ! Suc i) = Suc i + 1"
    by (elim conjE)
  then have "Suc 1 < length ex_entries \<and> score (ex_entries ! Suc 1) \<noteq> score (ex_entries ! 1) \<longrightarrow>
          rank (assign_ranks ex_entries ! Suc 1) = Suc 1 + 1" by (rule spec)
  with h2 have r2: "rank (assign_ranks ex_entries ! Suc 1) = Suc 1 + 1" by (rule rev_mp)
  from T have "\<forall>j i. j \<le> i \<and> Suc i < length ex_entries
            \<and> (j = 0 \<or> score (ex_entries ! (j - 1)) \<noteq> score (ex_entries ! j))
            \<and> (\<forall>k. j \<le> k \<and> k \<le> i \<longrightarrow> score (ex_entries ! k) = score (ex_entries ! j))
            \<and> score (ex_entries ! Suc i) \<noteq> score (ex_entries ! i) \<longrightarrow>
          rank (assign_ranks ex_entries ! Suc i) = rank (assign_ranks ex_entries ! j) + (Suc i - j)"
    by (elim conjE)
  then have "(0::nat) \<le> 1 \<and> Suc 1 < length ex_entries
            \<and> ((0::nat) = 0 \<or> score (ex_entries ! (0 - 1)) \<noteq> score (ex_entries ! 0))
            \<and> (\<forall>k. 0 \<le> k \<and> k \<le> 1 \<longrightarrow> score (ex_entries ! k) = score (ex_entries ! 0))
            \<and> score (ex_entries ! Suc 1) \<noteq> score (ex_entries ! 1) \<longrightarrow>
          rank (assign_ranks ex_entries ! Suc 1) = rank (assign_ranks ex_entries ! 0) + (Suc 1 - 0)"
    by blast
  with h5 have r5: "rank (assign_ranks ex_entries ! Suc 1) = rank (assign_ranks ex_entries ! 0) + (Suc 1 - 0)"
    by (rule rev_mp)
  from h0 r0 h3 h4 r3 h2 r2 r5 h1 r1 show ?thesis by blast
qed

section \<open>The score of a profile\<close>

lemma creatorScores_eq:
  "creatorScores p = map points_or_zero (filter (\<lambda>s. slug s = ''creator_score'') (score_entries p))"
  by (simp add: creatorScores_def score_entries_def points_or_zero_def split: option.splits)

lemma set_creatorScores:
  "set (creatorScores p) = {points_or_zero s | s. s \<in> set (score_entries p) \<and> slug s = ''creator_score''}"
  by (auto simp: creatorScores_eq)

lemma fold_max_Max: "fold max xs (x::int) = Max (set (x # xs))"
  by (rule Max.set_eq_fold[symmetric])

lemma profile_score_Max:
  "profile_score p = (if creatorScores p = [] then 0 else Max (set (creatorScores p)))"
proof (cases "creatorScores p")
  case Nil
  then show ?thesis by (simp add: profile_score_def)
next
  case (Cons x xs)
  then have "profile_score p = fold max xs x" by (simp add: profile_score_def)
  also have "\<dots> = Max (set (x # xs))" by (rule fold_max_Max)
  finally show ?thesis using Cons by simp
qed

lemma profile_score_nonneg:
  assumes "\<forall>s \<in> set (score_entries p). slug s = ''creator_score'' \<longrightarrow> 0 \<le> points_or_zero s"
  shows "0 \<le> profile_score p"
proof (cases "creatorScores p = []")
  case True
  then show ?thesis by (simp add: profile_score_Max)
next
  case False
  then obtain x where x: "x \<in> set (creatorScores p)" by (cases "creatorScores p") auto
  with assms have "0 \<le> x" by (auto simp: set_creatorScores)
  also from x have "x \<le> Max (set (creatorScores p))" by simp
  finally show ?thesis using False by (simp add: profile_score_Max)
qed

lemma profile_score_no_match:
  assumes "\<forall>s \<in> set (score_entries p). slug s \<noteq> ''creator_score''"
  shows "profile_score p = 0"
proof -
  from assms have "filter (\<lambda>s. slug s = ''creator_score'') (score_entries p) = []"
    by (simp add: filter_empty_conv)
  then show ?thesis by (simp add: profile_score_def creatorScores_eq)
qed

text \<open>
  Claim C2. The score extracted from a profile is the maximum of the points of its score
  entries whose slug is \<open>creator_score\<close>, a missing or null points value counting as 0,
  when there is such an entry, and 0 otherwise. A profile whose entries are
  \<open>creator_score\<close> 50, \<open>creator_score\<close> 80 and \<open>other\<close> 999 has score 80, and a profile
  with no entry of that slug has score 0.
\<close>

theorem profile_score_is_max:
  "profile_score p =
     (if {points_or_zero s | s. s \<in> set (score_entries p) \<and> slug s = ''creator_score''} = {}
      then 0
      else Max {points_or_zero s | s. s \<in> set (score_entries p) \<and> slug s = ''creator_score''})
   \<and> (scores p = Some [\<lparr> slug = ''creator_score'', points = Some 50 \<rparr>,
                       \<lparr> slug = ''creator_score'', points = Some 80 \<rparr>,
                       \<lparr> slug = ''other'', points = Some 999 \<rparr>] \<longrightarrow> profile_score p = 80)
   \<and> ((\<forall>s \<in> set (score_entries p). slug s \<noteq> ''creator_score'') \<longrightarrow> profile_score p = 0)"
proof -
  have a: "profile_score p =
     (if {points_or_zero s | s. s \<in> set (score_entries p) \<and> slug s = ''creator_score''} = {}
      then 0
      else Max {points_or_zero s | s. s \<in> set (score_entries p) \<and> slug s = ''creator_score''})"
    unfolding profile_score_Max set_creatorScores[symmetric] by simp
  have b: "scores p = Some [\<lparr> slug = ''creator_score'', points = Some 50 \<rparr>,
                       \<lparr> slug = ''creator_score'', points = Some 80 \<rparr>,
                       \<lparr> slug = ''other'', points = Some 999 \<rparr>] \<longrightarrow> profile_score p = 80"
    by (simp add: profile_score_def creatorScores_def)
  have c: "(\<forall>s \<in> set (score_entries p). slug s \<noteq> ''creator_score'') \<longrightarrow> profile_score p = 0"
  proof
    assume "\<forall>s \<in> set (score_entries p). slug s \<noteq> ''creator_score''"
    then have "filter (\<lambda>s. slug s = ''creator_score'') (score_entries p) = []"
      by (simp add: filter_empty_conv)
    then show "profile_score p = 0" by (simp add: profile_score_def creatorScores_eq)
  qed
  show ?thesis by (intro conjI) (rule a b c)+
qed

theorem profile_score_is_max_witness:
  "scores ex_profile = Some [\<lparr> slug = ''creator_score'', points = Some 50 \<rparr>,
                            \<lparr> slug = ''creator_score'', points = Some 80 \<rparr>,
                            \<lparr> slug = ''other'', points = Some 999 \<rparr>]
   \<and> profile_score ex_profile = 80
   \<and> profile_score ex_profile =
       Max {points_or_zero s | s. s \<in> set (score_entries ex_profile) \<and> slug s = ''creator_score''}
   \<and> score_entries plain_profile = []
   \<and> profile_score plain_profile = 0"
proof -
  note T = profile_score_is_max [of ex_profile]
  note U = profile_score_is_max [of plain_profile]
  have h: "scores ex_profile = Some [\<lparr> slug = ''creator_score'', points = Some 50 \<rparr>,
                       \<lparr> slug = ''creator_score'', points = Some 80 \<rparr>,
                       \<lparr> slug = ''other'', points = Some 999 \<rparr>]"
    by (simp add: ex_profile_def)
  from T have "scores ex_profile = Some [\<lparr> slug = ''creator_score'', points = Some 50 \<rparr>,
                       \<lparr> slug = ''creator_score'', points = Some 80 \<rparr>,
                       \<lparr> slug = ''other'', points = Some 999 \<rparr>] \<longrightarrow> profile_score ex_profile = 80"
    by (elim conjE)
  with h have r1: "profile_score ex_profile = 80" by (rule rev_mp)
  have ne: "{points_or_zero s | s. s \<in> set (score_entries ex_profile) \<and> slug s = ''creator_score''} \<noteq> {}"
  proof -
    have "\<lparr> slug = ''creator_score'', points = Some 50 \<rparr> \<in> set (score_entries ex_profile)"
      by (simp add: ex_profile_def score_entries_def)
    then show ?thesis by force
  qed
  from T have "profile_score ex_profile =
     (if {points_or_zero s | s. s \<in> set (score_entries ex_profile) \<and> slug s = ''creator_score''} = {}
      then 0
      else Max {points_or_zero s | s. s \<in> set (score_entries ex_profile) \<and> slug s = ''creator_score''})"
    by (elim conjE)
  with ne have r2: "profile_score ex_profile =
       Max {points_or_zero s | s. s \<in> set (score_entries ex_profile) \<and> slug s = ''creator_score''}"
    by (simp only: if_False)
  have e: "score_entries plain_profile = []"
    by (simp add: score_entries_def plain_profile_def)
  then have h3: "\<forall>s \<in> set (score_entries plain_profile). slug s \<noteq> ''creator_score''"
    by simp
  from U have "(\<forall>s \<in> set (score_entries plain_profile). slug s \<noteq> ''creator_score'')
      \<longrightarrow> profile_score plain_profile = 0"
    by (elim conjE)
  with h3 have r3: "profile_score plain_profile = 0" by (rule rev_mp)
  from h r1 r2 e r3 show ?thesis by blast
qed

section \<open>The sort\<close>

lemma mset_insert_by: "mset (insert_by cmp x ys) = add_mset x (mset ys)"
  by (induction ys) auto

lemma set_insert_by: "set (insert_by cmp x ys) = insert x (set ys)"
  by (induction ys) auto

lemma mset_array_sort: "mset (array_sort cmp xs) = mset xs"
  unfolding array_sort_def by (induction xs) (auto simp: mset_insert_by)

lemma length_array_sort: "length (array_sort cmp xs) = length xs"
  using mset_array_sort[of cmp xs] by (metis size_mset)

lemma sorted_insert_by:
  "sorted_wrt (\<lambda>a b. score b \<le> score a) ys \<Longrightarrow>
   sorted_wrt (\<lambda>a b. score b \<le> score a) (insert_by by_score_desc x ys)"
  by (induction ys) (auto simp: set_insert_by by_score_desc_def)

lemma sorted_array_sort:
  "sorted_wrt (\<lambda>a b. score b \<le> score a) (array_sort by_score_desc xs)"
  unfolding array_sort_def by (induction xs) (auto intro: sorted_insert_by)

lemma sorted_assign_ranks:
  assumes "sorted_wrt (\<lambda>a b. score b \<le> score a) es"
  shows "sorted_wrt (\<lambda>a b. score b \<le> score a) (assign_ranks es)"
proof -
  from assms have "sorted_wrt (\<lambda>x y. y \<le> x) (map score es)"
    by (simp add: sorted_wrt_map)
  then have "sorted_wrt (\<lambda>x y. y \<le> x) (map score (assign_ranks es))"
    by (simp only: assign_ranks_scores)
  then show ?thesis by (simp add: sorted_wrt_map)
qed

lemma listing_entries_mset:
  "mset (map (\<lambda>e. (entry_id e, score e))
           (assign_ranks (array_sort by_score_desc (map mapped_entry ps))))
   = mset (map (\<lambda>p. (profile_id p, profile_score p)) ps)"
proof -
  have "map (\<lambda>e. (entry_id e, score e)) (assign_ranks (array_sort by_score_desc (map mapped_entry ps)))
        = map (\<lambda>e. (entry_id e, score e)) (array_sort by_score_desc (map mapped_entry ps))"
    by (simp add: assign_ranks_def rank_loop_ids)
  then have "mset (map (\<lambda>e. (entry_id e, score e)) (assign_ranks (array_sort by_score_desc (map mapped_entry ps))))
        = image_mset (\<lambda>e. (entry_id e, score e)) (mset (array_sort by_score_desc (map mapped_entry ps)))"
    by simp
  also have "\<dots> = image_mset (\<lambda>e. (entry_id e, score e)) (mset (map mapped_entry ps))"
    by (simp only: mset_array_sort)
  also have "\<dots> = mset (map (\<lambda>p. (profile_id p, profile_score p)) ps)"
    by (simp add: mapped_entry_def image_mset.compositionality comp_def)
  finally show ?thesis .
qed

section \<open>The branches of the handler\<close>

lemma listing_mode_eq:
  "listing_mode json =
     Responded 200
       (Listing_body (assign_ranks (array_sort by_score_desc (map mapped_entry (profiles_of json))))
          100
          (num_or (pagination_total json) (int (length (profiles_of json)))))"
  by (simp add: listing_mode_def profiles_of_def Let_def assign_ranks_def length_rank_loop
      length_array_sort)

lemma stats_mode_total:
  "\<exists>ec. stats_mode key fetch json =
     ([eligible_request key], Responded 200 (Stats_body 100 (num_or (pagination_total json) 0) ec))"
  by (simp add: stats_mode_def Let_def split: fetch_result.splits option.splits)

lemma stats_mode_rejected:
  assumes "fetch (eligible_request key) = Rejected"
  shows "stats_mode key fetch json =
     ([eligible_request key],
      Responded 200 (Stats_body 100 (num_or (pagination_total json) 0)
                       (fallback_estimate (num_or (pagination_total json) 0))))"
  using assms by (simp add: stats_mode_def Let_def)

lemma stats_mode_not_ok:
  assumes "fetch (eligible_request key) = Resolved eligibleRes" and "\<not> ok eligibleRes"
  shows "stats_mode key fetch json =
     ([eligible_request key], Responded 200 (Stats_body 100 (num_or (pagination_total json) 0) 0))"
  using assms by (simp add: stats_mode_def Let_def)

lemma GET_missing_key:
  "str_or apiKey [] = [] \<Longrightarrow>
   GET apiKey fetch sp = ([], Responded 500 (Error_body ''Missing Talent API key''))"
  by (simp add: GET_def)


lemma GET_listing:
  assumes "str_or apiKey [] \<noteq> []"
    and "fetch (listing_request (str_or apiKey []) (param_page sp) (param_perPage sp)) = Resolved res"
    and "ok res" and "body_json res = Some json" and "\<not> param_statsOnly sp"
  shows "GET apiKey fetch sp =
     ([listing_request (str_or apiKey []) (param_page sp) (param_perPage sp)], listing_mode json)"
  using assms by (simp add: GET_def Let_def)

lemma GET_stats:
  assumes "str_or apiKey [] \<noteq> []"
    and "fetch (listing_request (str_or apiKey []) (param_page sp) (param_perPage sp)) = Resolved res"
    and "ok res" and "body_json res = Some json" and "param_statsOnly sp"
  shows "GET apiKey fetch sp =
     (listing_request (str_or apiKey []) (param_page sp) (param_perPage sp)
        # fst (stats_mode (str_or apiKey []) fetch json),
      snd (stats_mode (str_or apiKey []) fetch json))"
  using assms by (simp add: GET_def Let_def split: prod.splits)

lemma GET_first_call:
  assumes "str_or apiKey [] \<noteq> []"
  shows "\<exists>rest. fst (GET apiKey fetch sp)
           = listing_request (str_or apiKey []) (param_page sp) (param_perPage sp) # rest"
proof (cases "fetch (listing_request (str_or apiKey []) (param_page sp) (param_perPage sp))")
  case Rejected
  with assms show ?thesis by (simp add: GET_def Let_def)
next
  case (Resolved res)
  show ?thesis
  proof (cases "ok res")
    case False
    with assms Resolved show ?thesis by (simp add: GET_def Let_def)
  next
    case True
    show ?thesis
    proof (cases "body_json res")
      case None
      with assms Resolved True show ?thesis by (simp add: GET_def Let_def)
    next
      case (Some json)
      show ?thesis
      proof (cases "param_statsOnly sp")
        case True
        from GET_stats[where fetch = fetch, OF assms Resolved \<open>ok res\<close> Some True]
        show ?thesis by simp
      next
        case False
        from GET_listing[where fetch = fetch, OF assms Resolved \<open>ok res\<close> Some False]
        show ?thesis by simp
      qed
    qed
  qed
qed

text \<open>Facts about the example data, used where a statement is applied to it.\<close>

lemma ex_hyps:
  "str_or (Some ''key'') [] \<noteq> []"
  "fetch_ok (listing_request (str_or (Some ''key'') []) (param_page Map.empty) (param_perPage Map.empty))
     = Resolved ok_response"
  "ok ok_response"
  "body_json ok_response = Some ex_json"
  "\<not> param_statsOnly Map.empty"
  by (simp_all add: str_or_def fetch_ok_def ok_def ok_response_def param_statsOnly_def)

lemma stats_hyps:
  "fetch_eligible_err (listing_request (str_or (Some ''key'') []) (param_page stats_params) (param_perPage stats_params))
     = Resolved ok_response"
  "fetch_eligible_rejected (listing_request (str_or (Some ''key'') []) (param_page stats_params) (param_perPage stats_params))
     = Resolved ok_response"
  "fetch_ok (listing_request (str_or (Some ''key'') []) (param_page stats_params) (param_perPage stats_params))
     = Resolved ok_response"
  "param_statsOnly stats_params"
  "fetch_eligible_err (eligible_request (str_or (Some ''key'') [])) = Resolved err_response"
  "fetch_eligible_rejected (eligible_request (str_or (Some ''key'') [])) = Rejected"
  "\<not> ok err_response"
  "num_or (pagination_total ex_json) 0 = 1000"
  by (simp_all add: fetch_eligible_err_def fetch_eligible_rejected_def fetch_ok_def
      listing_request_def eligible_request_def param_statsOnly_def stats_params_def
      ok_def err_response_def num_or_def ex_json_def)

section \<open>The request parameters\<close>

lemmas parseInt_eval =
  parseInt_def utf16_def isWhiteSpace_def isDigit_def digitsValue_def digitValue_def
  to_number_def round53_def round_half_even_def bitLength.simps Let_def

lemma parseInt_defaults:
  "parseInt (utf16 ''1'') = Num 1" "parseInt (utf16 ''25'') = Num 25"
  by (simp_all add: parseInt_eval)

lemma default_params:
  "param_page Map.empty = Num 1" "param_perPage Map.empty = Num 25"
  "param_page stats_params = Num 1" "param_perPage stats_params = Num 25"
  by (simp_all add: param_page_def param_perPage_def stats_params_def str_or_def parseInt_defaults)

subsection \<open>Rounding\<close>

lemma bitLength_le: "n < 2 ^ k \<Longrightarrow> bitLength n \<le> k"
proof (induction k arbitrary: n)
  case 0
  then show ?case by (simp add: bitLength.simps)
next
  case (Suc k)
  show ?case
  proof (cases "n = 0")
    case True
    then show ?thesis by (simp add: bitLength.simps)
  next
    case False
    from Suc.prems have "n div 2 < 2 ^ k" by simp
    then have "bitLength (n div 2) \<le> k" by (rule Suc.IH)
    with False show ?thesis by (subst bitLength.simps) simp
  qed
qed

lemma round53_exact: "n < 2 ^ 53 \<Longrightarrow> round53 n = n"
  using bitLength_le [of n 53] by (simp add: round53_def round_half_even_def Let_def)

lemma to_number_exact:
  assumes "n < 2 ^ 53"
  shows "to_number False n = Num (int n)"
proof -
  have "(2::nat) ^ 53 \<le> 2 ^ 1024" by (rule power_increasing) simp_all
  with assms have "\<not> 2 ^ 1024 \<le> n" by simp
  with assms show ?thesis by (simp add: to_number_def round53_exact Let_def)
qed

lemma bitLength_lower: "n \<noteq> 0 \<Longrightarrow> 2 ^ (bitLength n - 1) \<le> n"
proof (induction n rule: bitLength.induct)
  case (1 n)
  show ?case
  proof (cases "n div 2 = 0")
    case True
    with "1.prems" have "n = 1" by (simp add: div_eq_0_iff)
    then show ?thesis by (simp add: bitLength.simps)
  next
    case False
    with "1.prems" have ih: "2 ^ (bitLength (n div 2) - 1) \<le> n div 2" by (rule "1.IH")
    from False have pos: "bitLength (n div 2) \<noteq> 0" by (subst bitLength.simps) simp
    then have "(2::nat) ^ bitLength (n div 2) = 2 * 2 ^ (bitLength (n div 2) - 1)"
      by (cases "bitLength (n div 2)") simp_all
    also from ih have "\<dots> \<le> 2 * (n div 2)" by simp
    also have "\<dots> \<le> n" by simp
    finally have "2 ^ bitLength (n div 2) \<le> n" .
    with "1.prems" show ?thesis by (subst bitLength.simps) simp
  qed
qed

lemma round_half_even_ge: "m div 2 ^ s \<le> round_half_even m s"
  by (simp add: round_half_even_def Let_def)

lemma round53_overflow:
  assumes "2 ^ 1024 \<le> n"
  shows "2 ^ 1024 \<le> round53 n"
proof -
  define s where "s = bitLength n - 53"
  have "(n div 2 ^ s) * 2 ^ s \<le> round_half_even n s * 2 ^ s"
    using round_half_even_ge [of n s] by (rule mult_le_mono1)
  then have r: "(n div 2 ^ s) * 2 ^ s \<le> round53 n"
    by (simp add: round53_def Let_def s_def)
  have "(2::nat) ^ 1024 \<le> (n div 2 ^ s) * 2 ^ s"
  proof (cases "s \<le> 1024")
    case True
    then have e: "(2::nat) ^ (1024 - s) * 2 ^ s = 2 ^ 1024"
      by (simp only: power_add [symmetric]) simp
    with assms have "2 ^ (1024 - s) * 2 ^ s \<le> n" by (simp only:)
    then have "2 ^ (1024 - s) \<le> n div 2 ^ s"
      by (simp only: less_eq_div_iff_mult_less_eq zero_less_power zero_less_numeral)
    then have "2 ^ (1024 - s) * 2 ^ s \<le> (n div 2 ^ s) * 2 ^ s" by (rule mult_le_mono1)
    then show ?thesis by (simp only: e)
  next
    case False
    have "(0::nat) < 2 ^ 1024" by (rule zero_less_power) simp
    with assms have "n \<noteq> 0" by linarith
    then have lo: "2 ^ (bitLength n - 1) \<le> n" by (rule bitLength_lower)
    from False have "s \<le> bitLength n - 1" by (simp add: s_def)
    then have "(2::nat) ^ s \<le> 2 ^ (bitLength n - 1)" by (intro power_increasing) simp_all
    from this lo have "2 ^ s \<le> n" by (rule le_trans)
    then have "1 * 2 ^ s \<le> n" by simp
    then have "1 \<le> n div 2 ^ s"
      by (simp only: less_eq_div_iff_mult_less_eq zero_less_power zero_less_numeral)
    then have a: "1 * 2 ^ s \<le> (n div 2 ^ s) * 2 ^ s" by (rule mult_le_mono1)
    from False have "(2::nat) ^ 1024 \<le> 2 ^ s" by (intro power_increasing) simp_all
    then have "(2::nat) ^ 1024 \<le> 1 * 2 ^ s" by (simp only: mult_1)
    from this a show ?thesis by (rule le_trans)
  qed
  from this r show ?thesis by (rule le_trans)
qed

lemma to_number_overflow: "2 ^ 1024 \<le> n \<Longrightarrow> to_number False n = PosInf"
  using round53_overflow [of n] by (simp only: to_number_def Let_def if_True if_False)

lemma ten_309: "(2::nat) ^ 1024 \<le> 10 ^ 309"
  by simp

lemma to_number_not_NaN: "to_number negative m \<noteq> NaN"
  by (simp add: to_number_def Let_def)

subsection \<open>Decimal numerals\<close>

lemma decimal_digits: "c \<in> set (decimal n) \<Longrightarrow> isDigit c"
proof (induction n rule: decimal.induct)
  case (1 n)
  show ?case
  proof (cases "n < 10")
    case True
    with "1.prems" show ?thesis by (subst (asm) decimal.simps) (simp add: isDigit_def)
  next
    case False
    with "1.prems" have "c \<in> set (decimal (n div 10)) \<or> c = 48 + n mod 10"
      by (subst (asm) decimal.simps) auto
    then show ?thesis
    proof
      assume "c \<in> set (decimal (n div 10))"
      with False show ?thesis by (rule "1.IH")
    next
      assume "c = 48 + n mod 10"
      then show ?thesis by (simp add: isDigit_def)
    qed
  qed
qed

lemma decimal_not_Nil: "decimal n \<noteq> []"
  by (subst decimal.simps) simp

lemma digitsValue_snoc: "digitsValue (xs @ [c]) = 10 * digitsValue xs + digitValue c"
  by (simp add: digitsValue_def)

lemma digitsValue_decimal: "digitsValue (decimal n) = n"
proof (induction n rule: decimal.induct)
  case (1 n)
  show ?case
  proof (cases "n < 10")
    case True
    then show ?thesis
      by (subst decimal.simps) (simp add: digitsValue_def digitValue_def)
  next
    case False
    then have "digitsValue (decimal (n div 10)) = n div 10" by (rule "1.IH")
    with False show ?thesis
      by (subst decimal.simps) (simp add: digitsValue_snoc digitValue_def)
  qed
qed

lemma digit_plain:
  assumes "isDigit c"
  shows "\<not> isWhiteSpace c" and "c \<noteq> of_char CHR ''-''" and "c \<noteq> of_char CHR ''+''"
  using assms by (auto simp: isDigit_def isWhiteSpace_def)

lemma parseInt_decimal: "parseInt (decimal n) = to_number False n"
proof -
  obtain d rest where dr: "decimal n = d # rest"
    using decimal_not_Nil [of n] by (cases "decimal n") auto
  then have d: "isDigit d" using decimal_digits [of d n] by simp
  have "takeWhile isDigit (decimal n) = decimal n"
    using decimal_digits [of _ n] by (simp add: takeWhile_eq_all_conv)
  then have tw: "takeWhile isDigit (d # rest) = d # rest" by (simp only: dr)
  have dv: "digitsValue (d # rest) = n" using digitsValue_decimal [of n] by (simp only: dr)
  have S: "dropWhile isWhiteSpace (d # rest) = d # rest"
    using digit_plain(1) [OF d] by simp
  have "parseInt (d # rest) = to_number False n"
    unfolding parseInt_def Let_def S
    using digit_plain(2,3) [OF d] by (simp only: list.case if_False simp_thms tw dv) simp
  then show ?thesis by (simp only: dr)
qed

subsection \<open>When the result is \<open>NaN\<close>\<close>

lemma takeWhile_not_Nil: "takeWhile P xs \<noteq> [] \<Longrightarrow> \<exists>d rest. xs = d # rest \<and> P d"
  by (cases xs) (auto split: if_splits)

lemma parseInt_numeral:
  assumes "\<forall>c \<in> set ws. isWhiteSpace c"
    and "sg = [] \<or> sg = utf16 ''-'' \<or> sg = utf16 ''+''"
    and "isDigit d"
  shows "parseInt (ws @ sg @ d # rest) \<noteq> NaN"
proof -
  have hd: "dropWhile isWhiteSpace (sg @ d # rest) = sg @ d # rest"
    using assms(2) digit_plain(1) [OF assms(3)] by (auto simp: utf16_def isWhiteSpace_def)
  have "dropWhile isWhiteSpace (ws @ sg @ d # rest) = dropWhile isWhiteSpace (sg @ d # rest)"
    using assms(1) by (simp add: dropWhile_append2)
  with hd have S: "dropWhile isWhiteSpace (ws @ sg @ d # rest) = sg @ d # rest" by simp
  from assms(2) show ?thesis
  proof (elim disjE)
    assume "sg = []"
    with S assms(3) digit_plain(2,3) [OF assms(3)] show ?thesis
      by (simp add: parseInt_def Let_def to_number_not_NaN)
  next
    assume "sg = utf16 ''-''"
    with S assms(3) show ?thesis
      by (simp add: parseInt_def Let_def to_number_not_NaN utf16_def)
  next
    assume "sg = utf16 ''+''"
    with S assms(3) show ?thesis
      by (simp add: parseInt_def Let_def to_number_not_NaN utf16_def)
  qed
qed

lemma parseInt_not_NaN:
  assumes "parseInt s \<noteq> NaN"
  shows "\<exists>ws sg d rest. s = ws @ sg @ d # rest \<and> (\<forall>c \<in> set ws. isWhiteSpace c)
           \<and> (sg = [] \<or> sg = utf16 ''-'' \<or> sg = utf16 ''+'') \<and> isDigit d"
proof -
  define ws where "ws = takeWhile isWhiteSpace s"
  define S where "S = dropWhile isWhiteSpace s"
  define S' where "S' = (case S of
        c # r \<Rightarrow> if c = of_char CHR ''-'' \<or> c = of_char CHR ''+'' then r else S
      | [] \<Rightarrow> S)"
  have s: "s = ws @ S" by (simp add: ws_def S_def)
  have ws: "\<forall>c \<in> set ws. isWhiteSpace c"
    unfolding ws_def by (auto dest: set_takeWhileD)
  from assms have "takeWhile isDigit S' \<noteq> []"
    unfolding parseInt_def Let_def S'_def S_def by (auto split: if_splits)
  then obtain d rest where S'dr: "S' = d # rest" and d: "isDigit d"
    using takeWhile_not_Nil by blast
  have "\<exists>sg. S = sg @ d # rest \<and> (sg = [] \<or> sg = utf16 ''-'' \<or> sg = utf16 ''+'')"
  proof (cases S)
    case Nil
    with S'dr show ?thesis by (simp add: S'_def)
  next
    case (Cons c r)
    show ?thesis
    proof (cases "c = of_char CHR ''-'' \<or> c = of_char CHR ''+''")
      case True
      with Cons S'dr have "r = d # rest" by (simp add: S'_def)
      with Cons True have "S = [c] @ d # rest \<and> ([c] = utf16 ''-'' \<or> [c] = utf16 ''+'')"
        by (auto simp: utf16_def)
      then show ?thesis by blast
    next
      case False
      with Cons S'dr have "S = [] @ d # rest" by (simp add: S'_def)
      then show ?thesis by blast
    qed
  qed
  with s ws d show ?thesis by blast
qed

lemma parseInt_NaN_iff:
  "parseInt s = NaN \<longleftrightarrow>
     \<not> (\<exists>ws sg d rest. s = ws @ sg @ d # rest \<and> (\<forall>c \<in> set ws. isWhiteSpace c)
           \<and> (sg = [] \<or> sg = utf16 ''-'' \<or> sg = utf16 ''+'') \<and> isDigit d)"
  using parseInt_not_NaN [of s] parseInt_numeral by blast

subsection \<open>Powers of ten\<close>

lemma decimal_power_of_ten:
  "decimal (10 ^ k) = of_char CHR ''1'' # replicate k (of_char CHR ''0'')"
proof (induction k)
  case 0
  show ?case by (subst decimal.simps) simp
next
  case (Suc k)
  have "decimal (10 ^ Suc k) = decimal (10 ^ k) @ [48]"
    by (subst decimal.simps) simp
  with Suc show ?case by (simp add: replicate_append_same)
qed

lemma parseInt_power_of_ten:
  "parseInt (of_char CHR ''1'' # replicate k (of_char CHR ''0'')) = to_number False (10 ^ k)"
  using parseInt_decimal [of "10 ^ k"] by (simp only: decimal_power_of_ten)

lemma power_of_ten_values:
  "to_number False (10 ^ 23) = Num 99999999999999991611392"
  "to_number False (10 ^ 309) = PosInf"
proof -
  show "to_number False (10 ^ 23) = Num 99999999999999991611392"
    by (simp add: to_number_def round53_def round_half_even_def bitLength.simps Let_def)
  show "to_number False (10 ^ 309) = PosInf"
    using ten_309 by (rule to_number_overflow)
qed

text \<open>
  Claim C9, amended. A missing or empty \<open>page\<close> parameter defaults to 1; a page size is
  read from \<open>per_page\<close>, else from \<open>perPage\<close>, and defaults to 25 when both are missing or
  empty. A parameter that is present and not empty is parsed by \<open>parseInt\<close> and is not
  defaulted: the result is \<open>NaN\<close> exactly when the value is not some white space, then at
  most one sign, then a decimal digit. No upper bound is enforced: the numeral of every
  integer below \<open>2 ^ 53\<close> gives that integer, and 1 followed by \<open>k\<close> zeros gives the double
  nearest to \<open>10 ^ k\<close>, which is 99999999999999991611392 for \<open>k = 23\<close> and infinity for
  \<open>k = 309\<close>.
  \<open>statsOnly\<close> is true exactly when the parameter is the string \<open>true\<close>, and so false when
  it is missing.
\<close>

theorem request_parameters_amended:
  "((sp ''page'' = None \<or> sp ''page'' = Some []) \<longrightarrow> param_page sp = Num 1)
   \<and> ((sp ''per_page'' = None \<or> sp ''per_page'' = Some [])
        \<and> (sp ''perPage'' = None \<or> sp ''perPage'' = Some []) \<longrightarrow> param_perPage sp = Num 25)
   \<and> (\<forall>s. sp ''page'' = Some s \<and> s \<noteq> [] \<longrightarrow> param_page sp = parseInt s)
   \<and> (\<forall>s. sp ''per_page'' = Some s \<and> s \<noteq> [] \<longrightarrow> param_perPage sp = parseInt s)
   \<and> (\<forall>s. (sp ''per_page'' = None \<or> sp ''per_page'' = Some [])
           \<and> sp ''perPage'' = Some s \<and> s \<noteq> [] \<longrightarrow> param_perPage sp = parseInt s)
   \<and> (\<forall>s. parseInt s = NaN \<longleftrightarrow>
           \<not> (\<exists>ws sg d rest. s = ws @ sg @ d # rest \<and> (\<forall>c \<in> set ws. isWhiteSpace c)
                 \<and> (sg = [] \<or> sg = utf16 ''-'' \<or> sg = utf16 ''+'') \<and> isDigit d))
   \<and> (\<forall>n. n < 2 ^ 53 \<longrightarrow> parseInt (decimal n) = Num (int n))
   \<and> (\<forall>k. parseInt (of_char CHR ''1'' # replicate k (of_char CHR ''0''))
          = to_number False (10 ^ k))
   \<and> to_number False (10 ^ 23) = Num 99999999999999991611392
   \<and> to_number False (10 ^ 309) = PosInf
   \<and> (param_statsOnly sp \<longleftrightarrow> sp ''statsOnly'' = Some (utf16 ''true''))
   \<and> (sp ''statsOnly'' = None \<longrightarrow> \<not> param_statsOnly sp)"
proof -
  have c1: "(sp ''page'' = None \<or> sp ''page'' = Some []) \<longrightarrow> param_page sp = Num 1"
    by (auto simp: param_page_def str_or_def parseInt_defaults)
  have c2: "(sp ''per_page'' = None \<or> sp ''per_page'' = Some [])
        \<and> (sp ''perPage'' = None \<or> sp ''perPage'' = Some []) \<longrightarrow> param_perPage sp = Num 25"
    by (auto simp: param_perPage_def str_or_def parseInt_defaults)
  have c3: "\<forall>s. sp ''page'' = Some s \<and> s \<noteq> [] \<longrightarrow> param_page sp = parseInt s"
    by (simp add: param_page_def str_or_def)
  have c4: "\<forall>s. sp ''per_page'' = Some s \<and> s \<noteq> [] \<longrightarrow> param_perPage sp = parseInt s"
    by (simp add: param_perPage_def str_or_def)
  have c5: "\<forall>s. (sp ''per_page'' = None \<or> sp ''per_page'' = Some [])
           \<and> sp ''perPage'' = Some s \<and> s \<noteq> [] \<longrightarrow> param_perPage sp = parseInt s"
    by (auto simp: param_perPage_def str_or_def)
  have c6: "\<forall>s. parseInt s = NaN \<longleftrightarrow>
           \<not> (\<exists>ws sg d rest. s = ws @ sg @ d # rest \<and> (\<forall>c \<in> set ws. isWhiteSpace c)
                 \<and> (sg = [] \<or> sg = utf16 ''-'' \<or> sg = utf16 ''+'') \<and> isDigit d)"
    by (rule allI) (rule parseInt_NaN_iff)
  have c7: "\<forall>n. n < 2 ^ 53 \<longrightarrow> parseInt (decimal n) = Num (int n)"
    by (simp add: parseInt_decimal to_number_exact)
  have c8: "\<forall>k. parseInt (of_char CHR ''1'' # replicate k (of_char CHR ''0''))
          = to_number False (10 ^ k)"
    by (rule allI) (rule parseInt_power_of_ten)
  have c9: "to_number False (10 ^ 23) = Num 99999999999999991611392"
    by (rule power_of_ten_values(1))
  have c10: "to_number False (10 ^ 309) = PosInf"
    by (rule power_of_ten_values(2))
  have c11: "param_statsOnly sp \<longleftrightarrow> sp ''statsOnly'' = Some (utf16 ''true'')"
    by (simp add: param_statsOnly_def)
  have c12: "sp ''statsOnly'' = None \<longrightarrow> \<not> param_statsOnly sp"
    by (simp add: param_statsOnly_def)
  show ?thesis by (intro conjI) (rule c1 c2 c3 c4 c5 c6 c7 c8 c9 c10 c11 c12)+
qed

theorem request_parameters_amended_witness:
  "(Map.empty ''page'' = None \<or> Map.empty ''page'' = Some [])
   \<and> param_page Map.empty = Num 1
   \<and> ((Map.empty ''per_page'' = None \<or> Map.empty ''per_page'' = Some [])
        \<and> (Map.empty ''perPage'' = None \<or> Map.empty ''perPage'' = Some []))
   \<and> param_perPage Map.empty = Num 25
   \<and> Map.empty ''statsOnly'' = None \<and> \<not> param_statsOnly Map.empty
   \<and> (page_params ''page'' = Some (utf16 ''7'') \<and> utf16 ''7'' \<noteq> [])
   \<and> param_page page_params = parseInt (utf16 ''7'')
   \<and> ((page_params ''per_page'' = None \<or> page_params ''per_page'' = Some [])
        \<and> page_params ''perPage'' = Some (utf16 ''50'') \<and> utf16 ''50'' \<noteq> [])
   \<and> param_perPage page_params = parseInt (utf16 ''50'')
   \<and> (7::nat) < 2 ^ 53 \<and> parseInt (decimal 7) = Num 7
   \<and> utf16 '' -5'' = utf16 '' '' @ utf16 ''-'' @ of_char CHR ''5'' # []
   \<and> isWhiteSpace (of_char CHR '' '') \<and> isDigit (of_char CHR ''5'')
   \<and> parseInt (utf16 '' -5'') \<noteq> NaN"
proof -
  note E = request_parameters_amended [of Map.empty]
  note P = request_parameters_amended [of page_params]
  have e1: "Map.empty ''page'' = None \<or> Map.empty ''page'' = Some []" by simp
  have e2: "(Map.empty ''per_page'' = None \<or> Map.empty ''per_page'' = Some [])
        \<and> (Map.empty ''perPage'' = None \<or> Map.empty ''perPage'' = Some [])" by simp
  have e3: "Map.empty ''statsOnly'' = None" by simp
  have p1: "page_params ''page'' = Some (utf16 ''7'') \<and> utf16 ''7'' \<noteq> []"
    by (simp add: page_params_def utf16_def)
  have p2: "(page_params ''per_page'' = None \<or> page_params ''per_page'' = Some [])
        \<and> page_params ''perPage'' = Some (utf16 ''50'') \<and> utf16 ''50'' \<noteq> []"
    by (simp add: page_params_def utf16_def)
  have n: "(7::nat) < 2 ^ 53" by simp
  have d1: "utf16 '' -5'' = utf16 '' '' @ utf16 ''-'' @ of_char CHR ''5'' # []"
    by (simp add: utf16_def)
  have d2: "\<forall>c \<in> set (utf16 '' ''). isWhiteSpace c"
    by (simp add: utf16_def isWhiteSpace_def)
  have d2': "isWhiteSpace (of_char CHR '' '')"
    by (simp add: isWhiteSpace_def)
  have d3: "isDigit (of_char CHR ''5'')" by (simp add: isDigit_def)
  from E e1 have r1: "param_page Map.empty = Num 1" by blast
  from E e2 have r2: "param_perPage Map.empty = Num 25" by blast
  from E e3 have r3: "\<not> param_statsOnly Map.empty" by blast
  from P p1 have r4: "param_page page_params = parseInt (utf16 ''7'')" by blast
  from P p2 have r5: "param_perPage page_params = parseInt (utf16 ''50'')" by blast
  from E have "\<forall>n. n < 2 ^ 53 \<longrightarrow> parseInt (decimal n) = Num (int n)" by (elim conjE)
  then have "(7::nat) < 2 ^ 53 \<longrightarrow> parseInt (decimal 7) = Num (int 7)" by (rule spec)
  with n have r6: "parseInt (decimal 7) = Num 7" by simp
  from E have N: "\<forall>s. parseInt s = NaN \<longleftrightarrow>
           \<not> (\<exists>ws sg d rest. s = ws @ sg @ d # rest \<and> (\<forall>c \<in> set ws. isWhiteSpace c)
                 \<and> (sg = [] \<or> sg = utf16 ''-'' \<or> sg = utf16 ''+'') \<and> isDigit d)"
    by (elim conjE)
  from d1 d2 d3 have "\<exists>ws sg d rest. utf16 '' -5'' = ws @ sg @ d # rest
        \<and> (\<forall>c \<in> set ws. isWhiteSpace c)
        \<and> (sg = [] \<or> sg = utf16 ''-'' \<or> sg = utf16 ''+'') \<and> isDigit d"
    by blast
  with N have r7: "parseInt (utf16 '' -5'') \<noteq> NaN" by blast
  from e1 r1 e2 r2 e3 r3 p1 r4 p2 r5 n r6 d1 d2' d3 r7 show ?thesis by blast
qed

text \<open>Claim C9 as stated fails: \<open>page=abc\<close> gives \<open>NaN\<close>, not 1, and \<open>per_page=abc\<close> gives
  \<open>NaN\<close>, not 25.\<close>

theorem request_parameters_counterexample:
  "param_page [''page'' \<mapsto> utf16 ''abc''] = NaN
   \<and> param_page [''page'' \<mapsto> utf16 ''abc''] \<noteq> Num 1
   \<and> param_perPage [''per_page'' \<mapsto> utf16 ''abc''] = NaN
   \<and> param_perPage [''per_page'' \<mapsto> utf16 ''abc''] \<noteq> Num 25"
  by (simp add: param_page_def param_perPage_def str_or_def parseInt_def utf16_def
      isWhiteSpace_def isDigit_def)

section \<open>Errors\<close>

text \<open>
  Claim C5. When the API key is absent (or empty) the handler answers with status 500 and
  the configuration error, whatever the request parameters are and whatever the provider
  would have answered, and it makes no provider call.
\<close>

theorem missing_key_no_call:
  assumes "apiKey = None \<or> apiKey = Some []"
  shows "GET apiKey fetch sp = ([], Responded 500 (Error_body ''Missing Talent API key''))"
proof -
  from assms have "str_or apiKey [] = []" by (auto simp: str_or_def)
  then show ?thesis by (rule GET_missing_key)
qed

theorem missing_key_no_call_witness:
  "(None = (None :: string option) \<or> None = Some [])
   \<and> GET None fetch_ok stats_params = ([], Responded 500 (Error_body ''Missing Talent API key''))"
proof -
  have h: "None = (None :: string option) \<or> None = Some []" by simp
  from missing_key_no_call [OF h] h show ?thesis by blast
qed




section \<open>Listing mode\<close>

text \<open>
  Claim C6. For every page and page size, the descriptor of the listing call has the score
  filter with minimum 1 and scorer \<open>Creator Score\<close>, the sort by score descending for that
  scorer followed by the sort by id descending, and the page and page size it was given,
  unchanged. Whenever the key is present this descriptor, built from the parsed request
  parameters, is the first provider call of the handler. It is a value computed from its
  arguments only: nothing is called or changed to build it.
\<close>

theorem listing_query_descriptor:
  "query (listing_request key pg perPage) = \<lparr> score_min = 1, score_scorer = ''Creator Score'' \<rparr>
   \<and> sort_spec (listing_request key pg perPage)
       = Some [(''score'', \<lparr> sort_order = ''desc'', sort_scorer = Some ''Creator Score'' \<rparr>),
               (''id'', \<lparr> sort_order = ''desc'', sort_scorer = None \<rparr>)]
   \<and> page (listing_request key pg perPage) = pg
   \<and> per_page (listing_request key pg perPage) = perPage
   \<and> (str_or apiKey [] \<noteq> [] \<longrightarrow>
        (\<exists>rest. fst (GET apiKey fetch sp)
           = listing_request (str_or apiKey []) (param_page sp) (param_perPage sp) # rest))"
  using GET_first_call [where fetch = fetch and apiKey = apiKey and sp = sp]
  by (simp add: listing_request_def)

theorem listing_query_descriptor_witness:
  "str_or (Some ''key'') [] \<noteq> []
   \<and> (\<exists>rest. fst (GET (Some ''key'') fetch_ok Map.empty)
           = listing_request (str_or (Some ''key'') []) (param_page Map.empty) (param_perPage Map.empty) # rest)
   \<and> page (listing_request ''key'' (Num 3) (Num 50)) = Num 3
   \<and> per_page (listing_request ''key'' (Num 3) (Num 50)) = Num 50"
proof -
  note T = listing_query_descriptor [where key = "''key''" and pg = "Num 3" and perPage = "Num 50"
      and apiKey = "Some ''key''" and fetch = fetch_ok and sp = Map.empty]
  have h: "str_or (Some ''key'') [] \<noteq> []" by (rule ex_hyps(1))
  from T h show ?thesis by blast
qed

text \<open>
  Claim C7. For every provider response, the entries returned in listing mode are ordered
  non-increasingly by score: each entry's score is at least the score of every later entry,
  in particular of the next one.
\<close>

theorem listing_sorted_by_score:
  assumes "str_or apiKey [] \<noteq> []"
    and "fetch (listing_request (str_or apiKey []) (param_page sp) (param_perPage sp)) = Resolved res"
    and "ok res" and "body_json res = Some json" and "\<not> param_statsOnly sp"
  shows "\<exists>es tc. GET apiKey fetch sp =
            ([listing_request (str_or apiKey []) (param_page sp) (param_perPage sp)],
             Responded 200 (Listing_body es 100 tc))
          \<and> sorted_wrt (\<lambda>a b. score b \<le> score a) es
          \<and> (\<forall>i. Suc i < length es \<longrightarrow> score (es ! Suc i) \<le> score (es ! i))"
proof -
  define es where "es = assign_ranks (array_sort by_score_desc (map mapped_entry (profiles_of json)))"
  define tc where "tc = num_or (pagination_total json) (int (length (profiles_of json)))"
  have g: "GET apiKey fetch sp =
            ([listing_request (str_or apiKey []) (param_page sp) (param_perPage sp)],
             Responded 200 (Listing_body es 100 tc))"
    unfolding GET_listing[where fetch = fetch, OF assms] listing_mode_eq es_def tc_def ..
  have s: "sorted_wrt (\<lambda>a b. score b \<le> score a) es"
    unfolding es_def by (rule sorted_assign_ranks) (rule sorted_array_sort)
  have n: "\<forall>i. Suc i < length es \<longrightarrow> score (es ! Suc i) \<le> score (es ! i)"
  proof (intro allI impI)
    fix i assume "Suc i < length es"
    with s show "score (es ! Suc i) \<le> score (es ! i)"
      by (simp add: sorted_wrt_iff_nth_less)
  qed
  from g s n show ?thesis by blast
qed

theorem listing_sorted_by_score_witness:
  "str_or (Some ''key'') [] \<noteq> []
   \<and> fetch_ok (listing_request (str_or (Some ''key'') []) (param_page Map.empty) (param_perPage Map.empty))
       = Resolved ok_response
   \<and> ok ok_response \<and> body_json ok_response = Some ex_json \<and> \<not> param_statsOnly Map.empty
   \<and> (\<exists>es tc. GET (Some ''key'') fetch_ok Map.empty =
            ([listing_request (str_or (Some ''key'') []) (param_page Map.empty) (param_perPage Map.empty)],
             Responded 200 (Listing_body es 100 tc))
          \<and> sorted_wrt (\<lambda>a b. score b \<le> score a) es)"
proof -
  from listing_sorted_by_score [where apiKey = "Some ''key''" and fetch = fetch_ok and sp = Map.empty
      and res = ok_response and json = ex_json, OF ex_hyps]
  have "\<exists>es tc. GET (Some ''key'') fetch_ok Map.empty =
            ([listing_request (str_or (Some ''key'') []) (param_page Map.empty) (param_perPage Map.empty)],
             Responded 200 (Listing_body es 100 tc))
          \<and> sorted_wrt (\<lambda>a b. score b \<le> score a) es"
    by blast
  with ex_hyps show ?thesis by blast
qed

text \<open>
  Claim C8, amended. In listing mode the returned entries carry, profile by profile, the
  identifier and the extracted score of the profiles of the provider response. For each of
  these profiles the score is non-negative provided none of its \<open>creator_score\<close> entries has
  negative points, and it is 0 (not absent) when no entry has that slug. The handler does
  not clamp: a profile whose only matching entry has negative points gets that negative
  score, as the counterexample below shows.
\<close>

theorem listing_score_nonneg_amended:
  assumes "str_or apiKey [] \<noteq> []"
    and "fetch (listing_request (str_or apiKey []) (param_page sp) (param_perPage sp)) = Resolved res"
    and "ok res" and "body_json res = Some json" and "\<not> param_statsOnly sp"
  shows "\<exists>es tc. GET apiKey fetch sp =
            ([listing_request (str_or apiKey []) (param_page sp) (param_perPage sp)],
             Responded 200 (Listing_body es 100 tc))
          \<and> mset (map (\<lambda>e. (entry_id e, score e)) es)
              = mset (map (\<lambda>p. (profile_id p, profile_score p)) (profiles_of json))
          \<and> (\<forall>p \<in> set (profiles_of json).
                ((\<forall>s \<in> set (score_entries p). slug s = ''creator_score'' \<longrightarrow> 0 \<le> points_or_zero s)
                   \<longrightarrow> 0 \<le> profile_score p)
              \<and> ((\<forall>s \<in> set (score_entries p). slug s \<noteq> ''creator_score'') \<longrightarrow> profile_score p = 0))"
proof -
  define es where "es = assign_ranks (array_sort by_score_desc (map mapped_entry (profiles_of json)))"
  define tc where "tc = num_or (pagination_total json) (int (length (profiles_of json)))"
  have g: "GET apiKey fetch sp =
            ([listing_request (str_or apiKey []) (param_page sp) (param_perPage sp)],
             Responded 200 (Listing_body es 100 tc))"
    unfolding GET_listing[where fetch = fetch, OF assms] listing_mode_eq es_def tc_def ..
  have m: "mset (map (\<lambda>e. (entry_id e, score e)) es)
              = mset (map (\<lambda>p. (profile_id p, profile_score p)) (profiles_of json))"
    unfolding es_def by (rule listing_entries_mset)
  have p: "\<forall>p \<in> set (profiles_of json).
                ((\<forall>s \<in> set (score_entries p). slug s = ''creator_score'' \<longrightarrow> 0 \<le> points_or_zero s)
                   \<longrightarrow> 0 \<le> profile_score p)
              \<and> ((\<forall>s \<in> set (score_entries p). slug s \<noteq> ''creator_score'') \<longrightarrow> profile_score p = 0)"
    using profile_score_nonneg profile_score_no_match by blast
  from g m p show ?thesis by blast
qed

theorem listing_score_nonneg_amended_witness:
  "str_or (Some ''key'') [] \<noteq> []
   \<and> fetch_ok (listing_request (str_or (Some ''key'') []) (param_page Map.empty) (param_perPage Map.empty))
       = Resolved ok_response
   \<and> ok ok_response \<and> body_json ok_response = Some ex_json \<and> \<not> param_statsOnly Map.empty
   \<and> ex_profile \<in> set (profiles_of ex_json) \<and> plain_profile \<in> set (profiles_of ex_json)
   \<and> 0 \<le> profile_score ex_profile \<and> profile_score plain_profile = 0"
proof -
  from listing_score_nonneg_amended [where apiKey = "Some ''key''" and fetch = fetch_ok
      and sp = Map.empty and res = ok_response and json = ex_json, OF ex_hyps]
  have P: "\<forall>p \<in> set (profiles_of ex_json).
                ((\<forall>s \<in> set (score_entries p). slug s = ''creator_score'' \<longrightarrow> 0 \<le> points_or_zero s)
                   \<longrightarrow> 0 \<le> profile_score p)
              \<and> ((\<forall>s \<in> set (score_entries p). slug s \<noteq> ''creator_score'') \<longrightarrow> profile_score p = 0)"
    by blast
  have m1: "ex_profile \<in> set (profiles_of ex_json)" and m2: "plain_profile \<in> set (profiles_of ex_json)"
    by (simp_all add: profiles_of_def ex_json_def)
  have h1: "\<forall>s \<in> set (score_entries ex_profile). slug s = ''creator_score'' \<longrightarrow> 0 \<le> points_or_zero s"
    by (simp add: score_entries_def ex_profile_def points_or_zero_def)
  have h2: "\<forall>s \<in> set (score_entries plain_profile). slug s \<noteq> ''creator_score''"
    by (simp add: score_entries_def plain_profile_def)
  from P m1 h1 have r1: "0 \<le> profile_score ex_profile" by blast
  from P m2 h2 have r2: "profile_score plain_profile = 0" by blast
  from ex_hyps m1 m2 r1 r2 show ?thesis by blast
qed

text \<open>Claim C8 as stated fails: for a page whose only profile has a \<open>creator_score\<close> entry
  of -5 points, the handler returns one entry, of rank 1 and score -5.\<close>

theorem listing_score_nonneg_counterexample:
  "GET (Some ''key'') fetch_neg Map.empty =
     ([listing_request ''key'' (Num 1) (Num 25)],
      Responded 200 (Listing_body [with_rank (mapped_entry neg_profile) 1] 100 1))
   \<and> score (with_rank (mapped_entry neg_profile) 1) = - 5"
  by (simp add: GET_def str_or_def default_params param_statsOnly_def
      fetch_neg_def neg_response_def neg_json_def ok_def listing_mode_def
      array_sort_def assign_ranks_def num_or_def with_rank_def mapped_entry_def
      profile_score_def creatorScores_def neg_profile_def Let_def)

section \<open>Totals and stats mode\<close>

text \<open>
  Claim C10. In listing mode \<open>totalCreators\<close> is the provider's pagination total when that
  is present and not zero, and the number of entries of the returned page otherwise. In
  stats mode it is the pagination total, and 0 when the total is missing: there is no
  fallback to a page length.
\<close>

theorem totalCreators_fallbacks:
  assumes "str_or apiKey [] \<noteq> []"
    and "fetch (listing_request (str_or apiKey []) (param_page sp) (param_perPage sp)) = Resolved res"
    and "ok res" and "body_json res = Some json"
  shows "(\<not> param_statsOnly sp \<longrightarrow>
            (\<exists>es. GET apiKey fetch sp =
               ([listing_request (str_or apiKey []) (param_page sp) (param_perPage sp)],
                Responded 200
                  (Listing_body es 100
                     (case pagination_total json of
                        None \<Rightarrow> int (length es)
                      | Some t \<Rightarrow> if t \<noteq> 0 then t else int (length es))))
               \<and> length es = length (profiles_of json)))
       \<and> (param_statsOnly sp \<longrightarrow>
            (\<exists>calls ec. GET apiKey fetch sp =
               (calls,
                Responded 200
                  (Stats_body 100 (case pagination_total json of None \<Rightarrow> 0 | Some t \<Rightarrow> t) ec))))"
proof (intro conjI impI)
  assume ns: "\<not> param_statsOnly sp"
  define es where "es = assign_ranks (array_sort by_score_desc (map mapped_entry (profiles_of json)))"
  have len: "length es = length (profiles_of json)"
    by (simp add: es_def assign_ranks_def length_rank_loop length_array_sort)
  have tc: "num_or (pagination_total json) (int (length (profiles_of json)))
      = (case pagination_total json of None \<Rightarrow> int (length es)
         | Some t \<Rightarrow> if t \<noteq> 0 then t else int (length es))"
    by (simp add: num_or_def len split: option.splits)
  have "GET apiKey fetch sp =
               ([listing_request (str_or apiKey []) (param_page sp) (param_perPage sp)],
                Responded 200
                  (Listing_body es 100
                     (case pagination_total json of
                        None \<Rightarrow> int (length es)
                      | Some t \<Rightarrow> if t \<noteq> 0 then t else int (length es))))"
    unfolding GET_listing[where fetch = fetch, OF assms ns] listing_mode_eq tc es_def ..
  with len show "\<exists>es. GET apiKey fetch sp =
               ([listing_request (str_or apiKey []) (param_page sp) (param_perPage sp)],
                Responded 200
                  (Listing_body es 100
                     (case pagination_total json of
                        None \<Rightarrow> int (length es)
                      | Some t \<Rightarrow> if t \<noteq> 0 then t else int (length es))))
               \<and> length es = length (profiles_of json)"
    by blast
next
  assume st: "param_statsOnly sp"
  obtain ec where ec: "stats_mode (str_or apiKey []) fetch json =
     ([eligible_request (str_or apiKey [])],
      Responded 200 (Stats_body 100 (num_or (pagination_total json) 0) ec))"
    using stats_mode_total by blast
  have n: "num_or (pagination_total json) 0 = (case pagination_total json of None \<Rightarrow> 0 | Some t \<Rightarrow> t)"
    by (simp add: num_or_def split: option.splits)
  have "GET apiKey fetch sp =
      ([listing_request (str_or apiKey []) (param_page sp) (param_perPage sp),
        eligible_request (str_or apiKey [])],
       Responded 200 (Stats_body 100 (case pagination_total json of None \<Rightarrow> 0 | Some t \<Rightarrow> t) ec))"
    unfolding GET_stats[where fetch = fetch, OF assms st] ec n by simp
  then show "\<exists>calls ec. GET apiKey fetch sp =
               (calls,
                Responded 200
                  (Stats_body 100 (case pagination_total json of None \<Rightarrow> 0 | Some t \<Rightarrow> t) ec))"
    by blast
qed

theorem totalCreators_fallbacks_witness:
  "str_or (Some ''key'') [] \<noteq> []
   \<and> fetch_neg (listing_request (str_or (Some ''key'') []) (param_page Map.empty) (param_perPage Map.empty))
       = Resolved neg_response
   \<and> ok neg_response \<and> body_json neg_response = Some neg_json
   \<and> \<not> param_statsOnly Map.empty
   \<and> pagination_total neg_json = None
   \<and> (\<exists>es. GET (Some ''key'') fetch_neg Map.empty =
          ([listing_request (str_or (Some ''key'') []) (param_page Map.empty) (param_perPage Map.empty)],
           Responded 200 (Listing_body es 100 (int (length es))))
        \<and> length es = length (profiles_of neg_json))
   \<and> fetch_neg (listing_request (str_or (Some ''key'') []) (param_page stats_params) (param_perPage stats_params))
       = Resolved neg_response
   \<and> param_statsOnly stats_params
   \<and> (\<exists>calls ec. GET (Some ''key'') fetch_neg stats_params =
          (calls, Responded 200 (Stats_body 100 0 ec)))"
proof -
  have h1: "str_or (Some ''key'') [] \<noteq> []" by (rule ex_hyps(1))
  have h2: "fetch_neg (listing_request (str_or (Some ''key'') []) (param_page Map.empty) (param_perPage Map.empty))
       = Resolved neg_response" by (simp add: fetch_neg_def)
  have h2': "fetch_neg (listing_request (str_or (Some ''key'') []) (param_page stats_params) (param_perPage stats_params))
       = Resolved neg_response" by (simp add: fetch_neg_def)
  have h3: "ok neg_response" by (simp add: ok_def neg_response_def)
  have h4: "body_json neg_response = Some neg_json" by (simp add: neg_response_def)
  have h5: "\<not> param_statsOnly Map.empty" by (rule ex_hyps(5))
  have h6: "param_statsOnly stats_params" by (rule stats_hyps(4))
  have n: "pagination_total neg_json = None" by (simp add: neg_json_def)
  from totalCreators_fallbacks [where apiKey = "Some ''key''" and fetch = fetch_neg and sp = Map.empty
      and res = neg_response and json = neg_json, OF h1 h2 h3 h4] h5
  have r1: "\<exists>es. GET (Some ''key'') fetch_neg Map.empty =
          ([listing_request (str_or (Some ''key'') []) (param_page Map.empty) (param_perPage Map.empty)],
           Responded 200 (Listing_body es 100 (int (length es))))
        \<and> length es = length (profiles_of neg_json)"
    by (simp add: n)
  from totalCreators_fallbacks [where apiKey = "Some ''key''" and fetch = fetch_neg and sp = stats_params
      and res = neg_response and json = neg_json, OF h1 h2' h3 h4] h6
  have r2: "\<exists>calls ec. GET (Some ''key'') fetch_neg stats_params =
          (calls, Responded 200 (Stats_body 100 0 ec))"
    by (simp add: n)
  from h1 h2 h3 h4 h5 n r1 h2' h6 r2 show ?thesis by blast
qed

text \<open>
  Claim C3, which the handler does not meet. In stats mode, with the first call reporting a
  total of 1000, an eligible-count call that resolves to a response with a failure status
  makes the handler answer \<open>eligibleCreators = 0\<close>. The estimate, which is 300 for this
  total, is substituted only when the eligible-count call rejects.
\<close>

theorem stats_eligible_not_ok_gives_zero:
  "GET (Some ''key'') fetch_eligible_err stats_params =
     ([listing_request ''key'' (Num 1) (Num 25), eligible_request ''key''],
      Responded 200 (Stats_body 100 1000 0))
   \<and> fallback_estimate 1000 = 300
   \<and> GET (Some ''key'') fetch_eligible_rejected stats_params =
     ([listing_request ''key'' (Num 1) (Num 25), eligible_request ''key''],
      Responded 200 (Stats_body 100 1000 300))"
proof -
  have k: "str_or (Some ''key'') [] = ''key''" by (simp add: str_or_def)
  have pp: "param_page stats_params = Num 1" "param_perPage stats_params = Num 25"
    by (rule default_params)+
  have f: "fallback_estimate 1000 = 300"
    by (simp add: fallback_estimate_def round53_def round_half_even_def bitLength.simps Let_def)
  have a: "GET (Some ''key'') fetch_eligible_err stats_params =
     ([listing_request ''key'' (Num 1) (Num 25), eligible_request ''key''],
      Responded 200 (Stats_body 100 1000 0))"
    unfolding GET_stats[where fetch = fetch_eligible_err and json = ex_json,
        OF ex_hyps(1) stats_hyps(1) ex_hyps(3) ex_hyps(4) stats_hyps(4)]
      stats_mode_not_ok[where fetch = fetch_eligible_err, OF stats_hyps(5) stats_hyps(7)]
      stats_hyps(8)
    by (simp add: k pp)
  have b: "GET (Some ''key'') fetch_eligible_rejected stats_params =
     ([listing_request ''key'' (Num 1) (Num 25), eligible_request ''key''],
      Responded 200 (Stats_body 100 1000 300))"
    unfolding GET_stats[where fetch = fetch_eligible_rejected and json = ex_json,
        OF ex_hyps(1) stats_hyps(2) ex_hyps(3) ex_hyps(4) stats_hyps(4)]
      stats_mode_rejected[where fetch = fetch_eligible_rejected, OF stats_hyps(6)]
      stats_hyps(8)
    by (simp add: k pp f)
  from a f b show ?thesis by blast
qed

end
